theory Spec2Isabelle
  imports Complex_Main "HOL-Library.Word"
begin

section \<open>The robot controller (robot\_controller.py)\<close>

text \<open>
  The controller is one Python file: a classifier \<open>analyze_image\<close>, a capture routine
  \<open>capture_image_from_server\<close> and the control loop \<open>main\<close>. Python floats are
  read as real numbers: rounding is not part of this model. The range of doubles is,
  where the code can leave it: in the distance of line 94.
  Calls into base64, NumPy, OpenCV, requests and websockets are library calls; what the
  model takes from each of them is said where it is used.
\<close>

subsection \<open>Configuration\<close>

datatype position = Position (pos_x: real) (pos_z: real)

definition GOAL_POSITION :: position where
  "GOAL_POSITION = Position (- 35) (- 35)"

definition GOAL_THRESHOLD :: real where
  "GOAL_THRESHOLD = 5"

subsection \<open>Exceptions and console output\<close>

text \<open>
  The exceptions that the modelled code raises; each is a subclass of Python's
  \<open>Exception\<close>, so \<^verbatim>\<open>except Exception\<close> catches every one of them.
\<close>

datatype py_error =
  ValueError | BinasciiError | Cv2Error | AttributeError | KeyError | OverflowError

text \<open>
  The lines the program prints, one constructor per \<^verbatim>\<open>print\<close> call (the texts
  hold emoji; only which line is printed matters here).
\<close>

datatype diag =
    Started                       \<comment> \<open>line 72\<close>
  | GoalSetTo position            \<comment> \<open>line 73\<close>
  | GoalSent                      \<comment> \<open>line 79\<close>
  | ErrorAnalyzingImage py_error  \<comment> \<open>line 51\<close>
  | TimeoutWaiting                \<comment> \<open>line 68\<close>
  | FailedToGetImage              \<comment> \<open>line 86\<close>
  | GoalReachedStopping           \<comment> \<open>line 96\<close>
  | ObstacleDetected              \<comment> \<open>line 105\<close>
  | PathClear                     \<comment> \<open>line 110\<close>

subsection \<open>Images\<close>

type_synonym uint8 = "8 word"

text \<open>A pixel is three 8-bit channels: B, G, R before the conversion, H, S, V after it.\<close>

type_synonym pixel = "uint8 \<times> uint8 \<times> uint8"

text \<open>
  A NumPy array of \<open>shape0\<close> rows and \<open>shape1\<close> columns; \<open>item a i j\<close> is the entry
  at row \<open>i\<close>, column \<open>j\<close>.
\<close>

record 'a ndarray =
  shape0 :: nat
  shape1 :: nat
  item :: "nat \<Rightarrow> nat \<Rightarrow> 'a"

definition indices :: "'a ndarray \<Rightarrow> (nat \<times> nat) list" where
  "indices a = List.product [0..<shape0 a] [0..<shape1 a]"

subsection \<open>Library calls of the classifier\<close>

text \<open>
  Three library functions are parameters of the model, since their code is not the
  controller's:
  \<^item> \<open>b64decode\<close> is \<^verbatim>\<open>base64.b64decode\<close>: the bytes, or the exception it raises
    (\<^verbatim>\<open>binascii.Error\<close> on bad padding, \<^verbatim>\<open>ValueError\<close> on a non-ASCII string);
  \<^item> \<open>imdecode\<close> is \<^verbatim>\<open>cv2.imdecode(np.frombuffer(data, np.uint8), cv2.IMREAD_COLOR)\<close>:
    a BGR array, \<^verbatim>\<open>None\<close> when the bytes are not an image, or the exception it raises
    on an empty buffer;
  \<^item> \<open>COLOR_BGR2HSV\<close> is the conversion that \<^verbatim>\<open>cv2.cvtColor\<close> applies to each pixel.
\<close>

record libs =
  b64decode :: "string \<Rightarrow> py_error + uint8 list"
  imdecode :: "uint8 list \<Rightarrow> py_error + pixel ndarray option"
  COLOR_BGR2HSV :: "pixel \<Rightarrow> pixel"

text \<open>
  \<^verbatim>\<open>cv2.cvtColor(img, cv2.COLOR_BGR2HSV)\<close> raises \<^verbatim>\<open>cv2.error\<close> when \<open>img\<close> is
  \<^verbatim>\<open>None\<close> or has no pixel; otherwise it converts pixel by pixel and keeps the shape.
\<close>

definition cvtColor :: "libs \<Rightarrow> pixel ndarray option \<Rightarrow> py_error + pixel ndarray" where
  "cvtColor L src =
     (case src of
        None \<Rightarrow> Inl Cv2Error
      | Some a \<Rightarrow>
          if shape0 a = 0 \<or> shape1 a = 0 then Inl Cv2Error
          else Inr \<lparr>shape0 = shape0 a, shape1 = shape1 a,
                    item = (\<lambda>i j. COLOR_BGR2HSV L (item a i j))\<rparr>)"

text \<open>
  \<^verbatim>\<open>cv2.inRange(src, lowerb, upperb)\<close>: 255 where every channel lies between its two
  bounds, both bounds included, and 0 elsewhere.
\<close>

definition in_bounds :: "pixel \<Rightarrow> pixel \<Rightarrow> pixel \<Rightarrow> bool" where
  "in_bounds p lowerb upperb =
     (case p of (c0, c1, c2) \<Rightarrow>
      case lowerb of (l0, l1, l2) \<Rightarrow>
      case upperb of (u0, u1, u2) \<Rightarrow>
        l0 \<le> c0 \<and> c0 \<le> u0 \<and> l1 \<le> c1 \<and> c1 \<le> u1 \<and> l2 \<le> c2 \<and> c2 \<le> u2)"

definition inRange :: "pixel ndarray \<Rightarrow> pixel \<Rightarrow> pixel \<Rightarrow> uint8 ndarray" where
  "inRange src lowerb upperb =
     \<lparr>shape0 = shape0 src, shape1 = shape1 src,
      item = (\<lambda>i j. if in_bounds (item src i j) lowerb upperb then 255 else 0)\<rparr>"

text \<open>\<^verbatim>\<open>np.sum(mask > 0)\<close>: the number of entries above 0.\<close>

definition sum_positive :: "uint8 ndarray \<Rightarrow> nat" where
  "sum_positive m = length (filter (\<lambda>(i, j). 0 < item m i j) (indices m))"

text \<open>
  \<open>green_pixel_count\<close> is a NumPy integer, so \<^verbatim>\<open>green_pixel_count / total_pixels\<close> is
  NumPy's true division: by zero it gives \<open>nan\<close> (0 / 0) or \<open>inf\<close> with a warning, and
  raises nothing. A comparison with \<open>nan\<close> is false.
\<close>

datatype np_float = Finite real | PosInf | NaN

definition np_true_divide :: "nat \<Rightarrow> nat \<Rightarrow> np_float" where
  "np_true_divide a b =
     (if b = 0 then (if a = 0 then NaN else PosInf) else Finite (real a / real b))"

fun np_times :: "np_float \<Rightarrow> real \<Rightarrow> np_float" where
  "np_times (Finite r) k = Finite (r * k)"
| "np_times PosInf k = PosInf"
| "np_times NaN k = NaN"

fun np_greater :: "np_float \<Rightarrow> real \<Rightarrow> bool" where
  "np_greater (Finite r) t = (t < r)"
| "np_greater PosInf t = True"
| "np_greater NaN t = False"

subsection \<open>analyze\_image (lines 19 to 52)\<close>

text \<open>
  \<^verbatim>\<open>header, encoded = image_data_url.split(",", 1)\<close>: the split at the first comma;
  without a comma the list has one element and the unpacking raises \<^verbatim>\<open>ValueError\<close>.
\<close>

definition split_comma :: "string \<Rightarrow> py_error + string \<times> string" where
  "split_comma s =
     (if CHR '','' \<in> set s
      then Inr (takeWhile (\<lambda>c. c \<noteq> CHR '','') s, tl (dropWhile (\<lambda>c. c \<noteq> CHR '','') s))
      else Inl ValueError)"

text \<open>Lines 26 to 31: from the data URL to the decoded image.\<close>

definition decode_image :: "libs \<Rightarrow> string \<Rightarrow> py_error + pixel ndarray option" where
  "decode_image L image_data_url =
     (case split_comma image_data_url of
        Inl e \<Rightarrow> Inl e
      | Inr (header, encoded) \<Rightarrow>
          (case b64decode L encoded of
             Inl e \<Rightarrow> Inl e
           | Inr data \<Rightarrow> imdecode L data))"

definition lower_green :: pixel where
  "lower_green = (35, 50, 50)"

definition upper_green :: pixel where
  "upper_green = (85, 255, 255)"

text \<open>Lines 44 to 49, on the mask and the decoded image.\<close>

definition green_pixel_count :: "pixel ndarray \<Rightarrow> nat" where
  "green_pixel_count hsv = sum_positive (inRange hsv lower_green upper_green)"

definition total_pixels :: "pixel ndarray \<Rightarrow> nat" where
  "total_pixels img = shape0 img * shape1 img"

definition green_percentage :: "pixel ndarray \<Rightarrow> pixel ndarray \<Rightarrow> np_float" where
  "green_percentage hsv img =
     np_times (np_true_divide (green_pixel_count hsv) (total_pixels img)) 100"

text \<open>
  The body of the \<^verbatim>\<open>try\<close>: the verdict, or the exception raised on the way.
  \<^verbatim>\<open>img.shape\<close> on \<^verbatim>\<open>None\<close> would raise \<^verbatim>\<open>AttributeError\<close>; \<open>cvtColor\<close>
  has raised before that.
\<close>

definition analyze_image_try :: "libs \<Rightarrow> string \<Rightarrow> py_error + bool" where
  "analyze_image_try L image_data_url =
     (case decode_image L image_data_url of
        Inl e \<Rightarrow> Inl e
      | Inr img \<Rightarrow>
          (case cvtColor L img of
             Inl e \<Rightarrow> Inl e
           | Inr hsv \<Rightarrow>
               (case img of
                  None \<Rightarrow> Inl AttributeError
                | Some a \<Rightarrow> Inr (np_greater (green_percentage hsv a) (1 / 10)))))"

text \<open>
  The whole function: the verdict and the lines printed. An exception of the body is
  caught, printed and turned into \<open>False\<close>.
\<close>

definition analyze_image :: "libs \<Rightarrow> string \<Rightarrow> bool \<times> diag list" where
  "analyze_image L image_data_url =
     (case analyze_image_try L image_data_url of
        Inl e \<Rightarrow> (False, [ErrorAnalyzingImage e])
      | Inr verdict \<Rightarrow> (verdict, []))"

subsection \<open>Commands and the observable trace\<close>

text \<open>
  The requests the controller posts to the simulator, one constructor per endpoint:
  \<^verbatim>\<open>/capture\<close>, \<^verbatim>\<open>/goal\<close>, \<^verbatim>\<open>/move\<close>, \<^verbatim>\<open>/move_rel\<close> with its turn and its
  distance, and \<^verbatim>\<open>/stop\<close>. A post is taken to return: an unreachable endpoint raises
  out of \<open>main\<close> and ends the process, which is not modelled.
\<close>

datatype command =
    Capture
  | Goal position
  | Move position
  | MoveRel (turn: int) (distance: int)
  | Stop

text \<open>What a run does, in order: requests, printed lines and pauses.\<close>

datatype event = Post command | Print diag | Sleep real

fun duration :: "event \<Rightarrow> real" where
  "duration (Sleep d) = d"
| "duration (Post c) = 0"
| "duration (Print l) = 0"

subsection \<open>The WebSocket stream\<close>

text \<open>
  A received message after \<^verbatim>\<open>json.loads\<close>: \<open>msg_type\<close> is \<^verbatim>\<open>data.get("type")\<close>,
  the two other fields are the values under \<^verbatim>\<open>"image"\<close> and \<^verbatim>\<open>"position"\<close>,
  \<open>None\<close> when the key is absent. Messages are taken to be JSON objects, an image to
  be a string and a position to hold numbers under \<^verbatim>\<open>"x"\<close> and \<^verbatim>\<open>"z"\<close>: a closed
  socket, a text that is not JSON or a value of another type raises out of \<open>main\<close> and
  is not modelled.
\<close>

record message =
  msg_type :: "string option"
  msg_image :: "string option"
  msg_position :: "position option"

text \<open>
  The messages the socket will deliver, in order, each with its time of arrival.
  Time is a real number of the units of \<^verbatim>\<open>timeout=5.0\<close> and \<^verbatim>\<open>asyncio.sleep\<close>;
  only waiting and sleeping take time.
\<close>

type_synonym arrivals = "(real \<times> message) list"

subsection \<open>capture\_image\_from\_server (lines 55 to 69)\<close>

text \<open>
  The \<^verbatim>\<open>while True\<close> loop, started at time \<open>now\<close>. Each turn is one
  \<^verbatim>\<open>asyncio.wait_for(ws.recv(), timeout=5.0)\<close>: the next message is returned if it
  arrives less than 5 units after this call began (at once if it has arrived already),
  otherwise the call raises \<^verbatim>\<open>TimeoutError\<close> 5 units after it began and the message
  stays on the socket. The result is the response or \<open>None\<close>, the time at which the
  function returns, and the messages still to come.
\<close>

fun recv_loop :: "real \<Rightarrow> arrivals \<Rightarrow> message option \<times> real \<times> arrivals" where
  "recv_loop now [] = (None, now + 5, [])"
| "recv_loop now ((t, data) # rest) =
     (if t < now + 5
      then (if msg_type data = Some ''capture_image_response''
            then (Some data, max now t, rest)
            else recv_loop (max now t) rest)
      else (None, now + 5, (t, data) # rest))"

definition capture_image_from_server ::
  "real \<Rightarrow> arrivals \<Rightarrow> message option \<times> event list \<times> real \<times> arrivals" where
  "capture_image_from_server now ws =
     (case recv_loop now ws of
        (None, t, rest) \<Rightarrow> (None, [Post Capture, Print TimeoutWaiting], t, rest)
      | (Some data, t, rest) \<Rightarrow> (Some data, [Post Capture], t, rest))"


fun last_start :: "real \<Rightarrow> arrivals \<Rightarrow> real" where
  "last_start now [] = now"
| "last_start now ((t, data) # ms) = last_start (max now t) ms"

subsection \<open>Distance to the goal (line 94 of main)\<close>

text \<open>
  \<^verbatim>\<open>((robot_pos["x"] - GOAL_POSITION["x"])**2 + (robot_pos["z"] - GOAL_POSITION["z"])**2)**0.5\<close>
  on coordinates that are Python floats, as the data model has them. The largest double
  is \<open>DBL_MAX\<close>. A power \<^verbatim>\<open>**2\<close> whose value is beyond it raises \<^verbatim>\<open>OverflowError\<close>;
  a sum beyond it is \<open>inf\<close> and raises nothing; \<^verbatim>\<open>**0.5\<close> of a number that is not
  negative is its square root, and that of \<open>inf\<close> is \<open>inf\<close>. The result is a double,
  for which \<open>np_float\<close> above has the cases. (The difference of a finite double and
  \<open>-35\<close> is finite. A coordinate that JSON writes as an integer is a Python int: line 94
  then raises \<^verbatim>\<open>OverflowError\<close> too, when the sum of the squares is too large for
  the conversion of \<^verbatim>\<open>**0.5\<close>; that path is not modelled.)
\<close>

definition DBL_MAX :: real where
  "DBL_MAX = (2 ^ 53 - 1) * 2 ^ 971"

definition float_square :: "real \<Rightarrow> py_error + real" where
  "float_square a = (if DBL_MAX < a\<^sup>2 then Inl OverflowError else Inr (a\<^sup>2))"

definition float_add :: "real \<Rightarrow> real \<Rightarrow> np_float" where
  "float_add a b = (if DBL_MAX < a + b then PosInf else Finite (a + b))"

fun float_sqrt :: "np_float \<Rightarrow> np_float" where
  "float_sqrt (Finite r) = Finite (sqrt r)"
| "float_sqrt PosInf = PosInf"
| "float_sqrt NaN = NaN"

definition distance_to_goal :: "position \<Rightarrow> py_error + np_float" where
  "distance_to_goal robot_pos =
     (case float_square (pos_x robot_pos - pos_x GOAL_POSITION) of
        Inl e \<Rightarrow> Inl e
      | Inr dx2 \<Rightarrow>
          (case float_square (pos_z robot_pos - pos_z GOAL_POSITION) of
             Inl e \<Rightarrow> Inl e
           | Inr dz2 \<Rightarrow> Inr (float_sqrt (float_add dx2 dz2))))"

text \<open>
  \<^verbatim>\<open>distance_to_goal < GOAL_THRESHOLD\<close> on a double: false for \<open>inf\<close> and for \<open>nan\<close>.
\<close>

fun float_less :: "np_float \<Rightarrow> real \<Rightarrow> bool" where
  "float_less (Finite r) t = (r < t)"
| "float_less PosInf t = False"
| "float_less NaN t = False"

subsection \<open>main (lines 71 to 119)\<close>

datatype status = Running | GoalReached | Crashed py_error

record state =
  clock :: real
  pending :: arrivals
  trace :: "event list"
  status :: status

definition emit :: "event list \<Rightarrow> state \<Rightarrow> state" where
  "emit evs s = s\<lparr>trace := trace s @ evs, clock := clock s + sum_list (map duration evs)\<rparr>"

text \<open>
  One turn of the \<^verbatim>\<open>while True\<close> loop of \<open>main\<close> (lines 84 to 119). A capture
  response without \<^verbatim>\<open>"image"\<close> or \<^verbatim>\<open>"position"\<close> raises \<^verbatim>\<open>KeyError\<close>, and line
  94 can raise \<^verbatim>\<open>OverflowError\<close>; nothing catches either, so the run ends there.
\<close>

definition cycle :: "libs \<Rightarrow> state \<Rightarrow> state" where
  "cycle L s =
     (case capture_image_from_server (clock s) (pending s) of
        (image_response, evs, t, rest) \<Rightarrow>
          let s1 = emit evs (s\<lparr>clock := t, pending := rest\<rparr>) in
          (case image_response of
             None \<Rightarrow> emit [Print FailedToGetImage, Sleep 1] s1
           | Some data \<Rightarrow>
               (case msg_image data of
                  None \<Rightarrow> s1\<lparr>status := Crashed KeyError\<rparr>
                | Some image_data \<Rightarrow>
                    (case msg_position data of
                       None \<Rightarrow> s1\<lparr>status := Crashed KeyError\<rparr>
                     | Some robot_pos \<Rightarrow>
                         (case distance_to_goal robot_pos of
                            Inl e \<Rightarrow> s1\<lparr>status := Crashed e\<rparr>
                          | Inr d \<Rightarrow>
                              if float_less d GOAL_THRESHOLD
                              then (emit [Print GoalReachedStopping, Post Stop] s1)
                                     \<lparr>status := GoalReached\<rparr>
                              else
                                (case analyze_image L image_data of
                                   (is_obstacle_ahead, printed) \<Rightarrow>
                                     if is_obstacle_ahead
                                     then emit (map Print printed @
                                            [Print ObstacleDetected, Post (MoveRel 20 5), Sleep 2,
                                             Sleep 1]) s1
                                     else emit (map Print printed @
                                            [Print PathClear, Post (MoveRel 0 10), Sleep 1,
                                             Post (Move GOAL_POSITION), Sleep 1]) s1))))))"

text \<open>
  The loop, for at most \<open>n\<close> turns: it runs while the status is \<open>Running\<close>, and the
  \<^verbatim>\<open>break\<close> of line 98 is the status \<open>GoalReached\<close>.
\<close>

fun main_loop :: "libs \<Rightarrow> nat \<Rightarrow> state \<Rightarrow> state" where
  "main_loop L 0 s = s"
| "main_loop L (Suc n) s = (if status s = Running then main_loop L n (cycle L s) else s)"

text \<open>
  \<open>main\<close> once the socket is connected (inside the \<^verbatim>\<open>async with\<close> of line 76): the two
  lines printed first, the goal posted, and the loop.
\<close>

definition main :: "libs \<Rightarrow> nat \<Rightarrow> arrivals \<Rightarrow> state" where
  "main L n ws =
     main_loop L n
       \<lparr>clock = 0, pending = ws,
        trace = [Print Started, Print (GoalSetTo GOAL_POSITION), Post (Goal GOAL_POSITION),
                 Print GoalSent],
        status = Running\<rparr>"

subsection \<open>The claimed readings, to compare with the code\<close>

text \<open>
  The green band read with saturation and value strictly above 50, as the words
  "exceeding the minimum" say.
\<close>

definition strictly_green :: "pixel \<Rightarrow> bool" where
  "strictly_green p = (case p of (h, s, v) \<Rightarrow> 35 \<le> h \<and> h \<le> 85 \<and> 50 < s \<and> 50 < v)"


subsection \<open>One instance of the library parameters, and sample inputs\<close>

text \<open>
  The theorems below hold for every choice of the three library functions. To run them
  on concrete inputs, here is one choice: it decodes four base64 texts (of the words
  GREEN, PALE, BLUE and JUNK), reads the first three as pictures of one colour, and
  converts these colours as OpenCV does: pure green (0, 255, 0) to (60, 255, 255), the
  pale green (205, 255, 205) to (60, 50, 255), pure blue (255, 0, 0) to (120, 255, 255).
\<close>

definition uniform :: "nat \<Rightarrow> nat \<Rightarrow> pixel \<Rightarrow> pixel ndarray" where
  "uniform h w p = \<lparr>shape0 = h, shape1 = w, item = (\<lambda>i j. p)\<rparr>"

definition sample_b64decode :: "string \<Rightarrow> py_error + uint8 list" where
  "sample_b64decode s =
     (if s = ''R1JFRU4='' then Inr [71, 82, 69, 69, 78]
      else if s = ''UEFMRQ=='' then Inr [80, 65, 76, 69]
      else if s = ''QkxVRQ=='' then Inr [66, 76, 85, 69]
      else if s = ''SlVOSw=='' then Inr [74, 85, 78, 75]
      else Inl BinasciiError)"

definition sample_imdecode :: "uint8 list \<Rightarrow> py_error + pixel ndarray option" where
  "sample_imdecode bs =
     (if bs = [] then Inl Cv2Error
      else if bs = [71, 82, 69, 69, 78] then Inr (Some (uniform 2 2 (0, 255, 0)))
      else if bs = [80, 65, 76, 69] then Inr (Some (uniform 2 2 (205, 255, 205)))
      else if bs = [66, 76, 85, 69] then Inr (Some (uniform 2 2 (255, 0, 0)))
      else Inr None)"

definition sample_bgr2hsv :: "pixel \<Rightarrow> pixel" where
  "sample_bgr2hsv p =
     (if p = (0, 255, 0) then (60, 255, 255)
      else if p = (205, 255, 205) then (60, 50, 255)
      else if p = (255, 0, 0) then (120, 255, 255)
      else (0, 0, 0))"

definition sample_libs :: libs where
  "sample_libs =
     \<lparr>b64decode = sample_b64decode, imdecode = sample_imdecode,
      COLOR_BGR2HSV = sample_bgr2hsv\<rparr>"

definition green_url :: string where
  "green_url = ''data:image/png;base64,R1JFRU4=''"

definition pale_url :: string where
  "pale_url = ''data:image/png;base64,UEFMRQ==''"

definition blue_url :: string where
  "blue_url = ''data:image/png;base64,QkxVRQ==''"

definition junk_url :: string where
  "junk_url = ''data:image/png;base64,SlVOSw==''"

text \<open>
  A picture of one row of \<open>n\<close> pixels, the first \<open>k\<close> pure green and the others pure
  blue, and the libraries that decode every payload to it.
\<close>

definition striped :: "nat \<Rightarrow> nat \<Rightarrow> pixel ndarray" where
  "striped k n = \<lparr>shape0 = 1, shape1 = n,
                  item = (\<lambda>i j. if j < k then (0, 255, 0) else (255, 0, 0))\<rparr>"

definition striped_libs :: "nat \<Rightarrow> nat \<Rightarrow> libs" where
  "striped_libs k n = sample_libs\<lparr>imdecode := (\<lambda>bs. Inr (Some (striped k n)))\<rparr>"

definition other_message :: message where
  "other_message = \<lparr>msg_type = Some ''status'', msg_image = None, msg_position = None\<rparr>"

definition frame_at :: "string \<Rightarrow> position \<Rightarrow> message" where
  "frame_at url p =
     \<lparr>msg_type = Some ''capture_image_response'', msg_image = Some url,
      msg_position = Some p\<rparr>"

definition start :: "arrivals \<Rightarrow> state" where
  "start ws = \<lparr>clock = 0, pending = ws, trace = [], status = Running\<rparr>"

section \<open>Properties\<close>

subsection \<open>Distance\<close>

lemma DBL_MAX_large: "2 ^ 1023 \<le> DBL_MAX"
proof -
  have "(2::real) ^ 1023 = 2 ^ 52 * 2 ^ 971"
    by (simp only: power_add [symmetric]) simp
  also have "\<dots> \<le> (2 ^ 53 - 1) * 2 ^ 971"
    by (intro mult_right_mono) simp_all
  finally show ?thesis
    by (simp only: DBL_MAX_def)
qed

lemma DBL_MAX_small: "DBL_MAX < 2 ^ 1024"
proof -
  have "(2 ^ 53 - 1) * 2 ^ 971 < (2::real) ^ 53 * 2 ^ 971"
    by (intro mult_strict_right_mono) simp_all
  also have "\<dots> = 2 ^ 1024"
    by (simp only: power_add [symmetric]) simp
  finally show ?thesis
    by (simp only: DBL_MAX_def)
qed

lemma distance_to_goal_cases:
  "distance_to_goal (Position a b) =
     (if DBL_MAX < (a + 35)\<^sup>2 \<or> DBL_MAX < (b + 35)\<^sup>2 then Inl OverflowError
      else if DBL_MAX < (a + 35)\<^sup>2 + (b + 35)\<^sup>2 then Inr PosInf
      else Inr (Finite (sqrt ((a + 35)\<^sup>2 + (b + 35)\<^sup>2))))"
  by (simp add: distance_to_goal_def float_square_def float_add_def GOAL_POSITION_def)

lemma distance_to_goal_near:
  assumes "(a + 35)\<^sup>2 + (b + 35)\<^sup>2 \<le> 2 ^ 1023"
  shows "distance_to_goal (Position a b) = Inr (Finite (sqrt ((a + 35)\<^sup>2 + (b + 35)\<^sup>2)))"
proof -
  have "(a + 35)\<^sup>2 \<le> (a + 35)\<^sup>2 + (b + 35)\<^sup>2" and "(b + 35)\<^sup>2 \<le> (a + 35)\<^sup>2 + (b + 35)\<^sup>2"
    by simp_all
  with assms DBL_MAX_large have "\<not> DBL_MAX < (a + 35)\<^sup>2" and "\<not> DBL_MAX < (b + 35)\<^sup>2"
    and "\<not> DBL_MAX < (a + 35)\<^sup>2 + (b + 35)\<^sup>2"
    by linarith+
  then show ?thesis
    by (simp only: distance_to_goal_cases simp_thms if_False)
qed

lemma float_less_sqrt:
  "float_less (Finite (sqrt r)) GOAL_THRESHOLD \<longleftrightarrow> r < 25"
proof -
  have "sqrt r < 5 \<longleftrightarrow> sqrt r < sqrt 25"
    by simp
  also have "\<dots> \<longleftrightarrow> r < 25"
    by (rule real_sqrt_less_iff)
  finally show ?thesis
    by (simp add: GOAL_THRESHOLD_def)
qed

lemma small_square:
  "(5::real) \<le> 2 ^ 1023" "(2450::real) \<le> 2 ^ 1023" "(25::real) \<le> 2 ^ 1023"
proof -
  have "(2450::real) \<le> 2 ^ 12"
    by simp
  also have "\<dots> \<le> 2 ^ 1023"
    by (rule power_increasing) simp_all
  finally show "(2450::real) \<le> 2 ^ 1023" .
  then show "(5::real) \<le> 2 ^ 1023" and "(25::real) \<le> 2 ^ 1023"
    by linarith+
qed

lemma sample_distances:
  "distance_to_goal (Position (- 33) (- 34)) = Inr (Finite (sqrt 5))"
  "distance_to_goal (Position 0 0) = Inr (Finite (sqrt 2450))"
  "distance_to_goal (Position (- 32) (- 31)) = Inr (Finite 5)"
  "float_less (Finite (sqrt 5)) GOAL_THRESHOLD"
  "\<not> float_less (Finite (sqrt 2450)) GOAL_THRESHOLD"
proof -
  show "distance_to_goal (Position (- 33) (- 34)) = Inr (Finite (sqrt 5))"
    using distance_to_goal_near [of "- 33" "- 34"] small_square(1) by simp
  show "distance_to_goal (Position 0 0) = Inr (Finite (sqrt 2450))"
    using distance_to_goal_near [of 0 0] small_square(2) by simp
  have "sqrt 25 = sqrt (5\<^sup>2)"
    by simp
  then have "sqrt 25 = 5"
    by (simp only: real_sqrt_abs abs_numeral)
  then show "distance_to_goal (Position (- 32) (- 31)) = Inr (Finite 5)"
    using distance_to_goal_near [of "- 32" "- 31"] small_square(3) by simp
  show "float_less (Finite (sqrt 5)) GOAL_THRESHOLD"
    unfolding float_less_sqrt by simp
  show "\<not> float_less (Finite (sqrt 2450)) GOAL_THRESHOLD"
    unfolding float_less_sqrt by simp
qed

text \<open>
  C7, as the code has it. The distance evaluator is a function of the position alone.
  It is not defined for every finite position: it raises \<^verbatim>\<open>OverflowError\<close> when the
  square of a coordinate offset from the goal is beyond the largest double, and it
  returns \<open>inf\<close> when both squares fit and their sum does not. In every other case,
  so whenever the sum of the two squares is within the range of a double, it returns
  the Euclidean distance in the plane between the position and the goal (here the
  distance of the two points read as complex numbers; rounding apart). From (0, 0) the
  distance to the goal (-35, -35) is 35 times the square root of 2, and from
  (-35, -35) it is 0.
\<close>

theorem distance_to_goal_range:
  "distance_to_goal (Position a b) =
     (if DBL_MAX < (a - (- 35))\<^sup>2 \<or> DBL_MAX < (b - (- 35))\<^sup>2 then Inl OverflowError
      else if DBL_MAX < (a - (- 35))\<^sup>2 + (b - (- 35))\<^sup>2 then Inr PosInf
      else Inr (Finite (dist (Complex a b)
                          (Complex (pos_x GOAL_POSITION) (pos_z GOAL_POSITION)))))
   \<and> distance_to_goal (Position 0 0) = Inr (Finite (35 * sqrt 2))
   \<and> distance_to_goal (Position (- 35) (- 35)) = Inr (Finite 0)"
proof (intro conjI)
  have "dist (Complex a b) (Complex (pos_x GOAL_POSITION) (pos_z GOAL_POSITION))
        = sqrt ((a + 35)\<^sup>2 + (b + 35)\<^sup>2)"
    by (simp add: dist_complex_def cmod_def GOAL_POSITION_def)
  then show "distance_to_goal (Position a b) =
     (if DBL_MAX < (a - (- 35))\<^sup>2 \<or> DBL_MAX < (b - (- 35))\<^sup>2 then Inl OverflowError
      else if DBL_MAX < (a - (- 35))\<^sup>2 + (b - (- 35))\<^sup>2 then Inr PosInf
      else Inr (Finite (dist (Complex a b)
                          (Complex (pos_x GOAL_POSITION) (pos_z GOAL_POSITION)))))"
    by (simp add: distance_to_goal_cases)
next
  have "sqrt ((35::real)\<^sup>2 + 35\<^sup>2) = sqrt (35\<^sup>2 * 2)"
    by simp
  also have "\<dots> = 35 * sqrt 2"
    by (simp only: real_sqrt_mult real_sqrt_abs abs_numeral)
  finally have "sqrt 2450 = 35 * sqrt 2"
    by simp
  then show "distance_to_goal (Position 0 0) = Inr (Finite (35 * sqrt 2))"
    by (simp only: sample_distances(2))
next
  have "(- 35 + 35 :: real)\<^sup>2 + (- 35 + 35)\<^sup>2 \<le> 2 ^ 1023"
    by simp
  from distance_to_goal_near [OF this]
  show "distance_to_goal (Position (- 35) (- 35)) = Inr (Finite 0)"
    by simp
qed

theorem distance_to_goal_range_witness:
  "distance_to_goal (Position (- 32) (- 31))
     = Inr (Finite (dist (Complex (- 32) (- 31)) (Complex (- 35) (- 35))))
   \<and> dist (Complex (- 32) (- 31)) (Complex (- 35) (- 35)) = 5"
proof -
  have d: "dist (Complex (- 32) (- 31)) (Complex (- 35) (- 35)) = sqrt 25"
    by (simp add: dist_complex_def cmod_def)
  have "sqrt 25 = sqrt (5\<^sup>2)"
    by simp
  then have five: "sqrt 25 = 5"
    by (simp only: real_sqrt_abs abs_numeral)
  have fit: "\<not> DBL_MAX < (- 32 - (- 35))\<^sup>2" "\<not> DBL_MAX < (- 31 - (- 35))\<^sup>2"
    "\<not> DBL_MAX < (- 32 - (- 35))\<^sup>2 + (- 31 - (- 35))\<^sup>2"
    using DBL_MAX_large small_square(3) by simp_all
  from distance_to_goal_range [of "- 32" "- 31", THEN conjunct1]
  have "distance_to_goal (Position (- 32) (- 31))
     = Inr (Finite (dist (Complex (- 32) (- 31)) (Complex (- 35) (- 35))))"
    by (simp only: fit simp_thms if_False GOAL_POSITION_def position.sel)
  with d five show ?thesis
    by simp
qed

text \<open>
  C7 as worded has the evaluator defined for all finite inputs. At the finite position
  with \<open>x\<close> equal to 10 to the power 200 and \<open>z\<close> equal to 0, the square of the offset in
  \<open>x\<close> is beyond the largest double and line 94 raises \<^verbatim>\<open>OverflowError\<close>, which ends the
  run of \<open>main\<close>.
\<close>

theorem distance_to_goal_overflow_counterexample:
  "distance_to_goal (Position (10 ^ 200) 0) = Inl OverflowError"
proof -
  have "(2::real) ^ 1024 = 2 * 8 ^ 341"
    by simp
  also have "\<dots> \<le> 2 * 10 ^ 341"
    by (intro mult_left_mono power_mono) simp_all
  also have "\<dots> \<le> 10 * 10 ^ 341"
    by (intro mult_right_mono) simp_all
  also have "\<dots> \<le> 10 ^ 400"
    by (simp only: power_Suc [symmetric]) (rule power_increasing, simp_all)
  finally have "DBL_MAX < 10 ^ 400"
    using DBL_MAX_small by linarith
  moreover have "(10::real) ^ 400 = (10 ^ 200)\<^sup>2"
    by (simp only: power_mult [symmetric]) simp
  moreover have "((10::real) ^ 200)\<^sup>2 \<le> (10 ^ 200 + 35)\<^sup>2"
    by (rule power_mono) simp_all
  ultimately have "DBL_MAX < (10 ^ 200 + 35)\<^sup>2"
    by linarith
  then show ?thesis
    by (simp only: distance_to_goal_cases simp_thms if_True)
qed

subsection \<open>The classifier: counting and converting\<close>

lemma uint8_le_255: "(x::uint8) \<le> 255"
proof -
  have "(255::uint8) = - 1" by simp
  then show ?thesis by (simp only: word_order.extremum)
qed

lemma in_bounds_green:
  "in_bounds (h, s, v) lower_green upper_green \<longleftrightarrow> 35 \<le> h \<and> h \<le> 85 \<and> 50 \<le> s \<and> 50 \<le> v"
  using uint8_le_255 [of s] uint8_le_255 [of v]
  by (simp add: in_bounds_def lower_green_def upper_green_def)

lemma item_inRange:
  "0 < item (inRange hsv lowerb upperb) i j \<longleftrightarrow> in_bounds (item hsv i j) lowerb upperb"
  by (simp add: inRange_def)

lemma length_indices: "length (indices a) = shape0 a * shape1 a"
  by (simp add: indices_def)

lemma set_indices: "set (indices a) = {(i, j). i < shape0 a \<and> j < shape1 a}"
  by (auto simp: indices_def)

lemma green_pixel_count_le: "green_pixel_count hsv \<le> total_pixels hsv"
proof -
  have "green_pixel_count hsv \<le> length (indices (inRange hsv lower_green upper_green))"
    unfolding green_pixel_count_def sum_positive_def by (rule length_filter_le)
  then show ?thesis
    by (simp add: length_indices total_pixels_def inRange_def)
qed

lemma green_pixel_count_all:
  assumes "\<And>i j. i < shape0 hsv \<Longrightarrow> j < shape1 hsv \<Longrightarrow> in_bounds (item hsv i j) lower_green upper_green"
  shows "green_pixel_count hsv = total_pixels hsv"
proof -
  let ?m = "inRange hsv lower_green upper_green"
  have "filter (\<lambda>(i, j). 0 < item ?m i j) (indices ?m) = indices ?m"
    using assms by (intro filter_True) (auto simp: set_indices item_inRange inRange_def)
  then show ?thesis
    by (simp add: green_pixel_count_def sum_positive_def length_indices total_pixels_def inRange_def)
qed

lemma green_pixel_count_none:
  assumes "\<And>i j. i < shape0 hsv \<Longrightarrow> j < shape1 hsv \<Longrightarrow> \<not> in_bounds (item hsv i j) lower_green upper_green"
  shows "green_pixel_count hsv = 0"
proof -
  let ?m = "inRange hsv lower_green upper_green"
  have "filter (\<lambda>(i, j). 0 < item ?m i j) (indices ?m) = []"
    using assms by (intro filter_False) (auto simp: set_indices item_inRange inRange_def)
  then show ?thesis
    by (simp add: green_pixel_count_def sum_positive_def)
qed

lemma cvtColor_Some_iff:
  "cvtColor L (Some a) = Inr hsv \<longleftrightarrow>
     0 < shape0 a \<and> 0 < shape1 a \<and>
     hsv = \<lparr>shape0 = shape0 a, shape1 = shape1 a, item = (\<lambda>i j. COLOR_BGR2HSV L (item a i j))\<rparr>"
  by (auto simp: cvtColor_def)

lemma cvtColor_shape:
  assumes "cvtColor L (Some a) = Inr hsv"
  shows "shape0 hsv = shape0 a" and "shape1 hsv = shape1 a" and "0 < total_pixels a"
    and "total_pixels hsv = total_pixels a"
    and "item hsv i j = COLOR_BGR2HSV L (item a i j)"
  using assms by (auto simp: cvtColor_Some_iff total_pixels_def)

lemma percentage_above:
  assumes "0 < t"
  shows "np_greater (np_times (np_true_divide c t) 100) (1 / 10) \<longleftrightarrow> 1 / 1000 < real c / real t"
  using assms by (simp add: np_true_divide_def mult.commute)

lemma analyze_image_try_decoded:
  assumes "decode_image L url = Inr (Some img)" and "cvtColor L (Some img) = Inr hsv"
  shows "analyze_image_try L url = Inr (1 / 1000 < real (green_pixel_count hsv) / real (total_pixels img))"
  using assms cvtColor_shape(3) [OF assms(2)]
  by (simp add: analyze_image_try_def green_percentage_def percentage_above)

lemma analyze_image_decoded:
  assumes "decode_image L url = Inr (Some img)" and "cvtColor L (Some img) = Inr hsv"
  shows "analyze_image L url = (1 / 1000 < real (green_pixel_count hsv) / real (total_pixels img), [])"
  by (simp add: analyze_image_def analyze_image_try_decoded [OF assms])

lemma analyze_image_raised:
  assumes "analyze_image_try L url = Inl e"
  shows "analyze_image L url = (False, [ErrorAnalyzingImage e])"
  using assms by (simp add: analyze_image_def)

lemma analyze_image_try_cases:
  "analyze_image_try L url =
     (case decode_image L url of
        Inl e \<Rightarrow> Inl e
      | Inr None \<Rightarrow> Inl Cv2Error
      | Inr (Some img) \<Rightarrow>
          if shape0 img = 0 \<or> shape1 img = 0 then Inl Cv2Error
          else Inr (1 / 1000 < real (green_pixel_count
                 \<lparr>shape0 = shape0 img, shape1 = shape1 img, item = (\<lambda>i j. COLOR_BGR2HSV L (item img i j))\<rparr>)
                 / real (total_pixels img)))"
  by (auto simp: analyze_image_try_def cvtColor_def green_percentage_def percentage_above total_pixels_def
      split: sum.splits option.splits)

lemma empty_image_no_verdict:
  assumes "total_pixels img = 0" and "total_pixels hsv = total_pixels img"
  shows "\<not> np_greater (green_percentage hsv img) (1 / 10)"
proof -
  have "green_pixel_count hsv = 0"
    using green_pixel_count_le [of hsv] assms by simp
  then show ?thesis
    using assms by (simp add: green_percentage_def np_true_divide_def)
qed

lemmas sample_defs = green_url_def pale_url_def blue_url_def junk_url_def
      sample_libs_def sample_b64decode_def sample_imdecode_def uniform_def sample_bgr2hsv_def
lemma sample_decode:
  "decode_image sample_libs green_url = Inr (Some (uniform 2 2 (0, 255, 0)))"
  "decode_image sample_libs pale_url = Inr (Some (uniform 2 2 (205, 255, 205)))"
  "decode_image sample_libs blue_url = Inr (Some (uniform 2 2 (255, 0, 0)))"
  "decode_image sample_libs junk_url = Inr None"
  by (simp_all add: decode_image_def split_comma_def sample_defs)

lemma sample_cvtColor:
  "cvtColor sample_libs (Some (uniform 2 2 (0, 255, 0))) = Inr (uniform 2 2 (60, 255, 255))"
  "cvtColor sample_libs (Some (uniform 2 2 (205, 255, 205))) = Inr (uniform 2 2 (60, 50, 255))"
  "cvtColor sample_libs (Some (uniform 2 2 (255, 0, 0))) = Inr (uniform 2 2 (120, 255, 255))"
  by (simp_all add: cvtColor_def sample_defs)

lemma sample_counts:
  "green_pixel_count (uniform 2 2 (60, 255, 255)) = 4"
  "green_pixel_count (uniform 2 2 (60, 50, 255)) = 4"
  "green_pixel_count (uniform 2 2 (120, 255, 255)) = 0"
  "total_pixels (uniform 2 2 p) = 4"
  by (simp_all add: green_pixel_count_def sum_positive_def inRange_def indices_def uniform_def
      in_bounds_def lower_green_def upper_green_def total_pixels_def)

lemma hsv_in_band:
  assumes "cvtColor L (Some img) = Inr hsv"
  shows "in_bounds (item hsv i j) lower_green upper_green
         \<longleftrightarrow> (case COLOR_BGR2HSV L (item img i j) of
                (h, s, v) \<Rightarrow> 35 \<le> h \<and> h \<le> 85 \<and> 50 \<le> s \<and> 50 \<le> v)"
proof -
  obtain h s v where p: "COLOR_BGR2HSV L (item img i j) = (h, s, v)"
    by (cases "COLOR_BGR2HSV L (item img i j)") auto
  have "item hsv i j = (h, s, v)"
    using cvtColor_shape(5) [OF assms, of i j] p by simp
  then show ?thesis
    by (simp only: p in_bounds_green split_conv)
qed


lemma full_green_in_band:
  assumes "case p of (h, s, v) \<Rightarrow> 35 \<le> h \<and> h \<le> 85 \<and> s = 255 \<and> v = (255::uint8)"
  shows "case p of (h, s, v) \<Rightarrow> (35::uint8) \<le> h \<and> h \<le> 85 \<and> (50::uint8) \<le> s \<and> 50 \<le> v"
proof -
  obtain h s v where p: "p = (h, s, v)"
    by (cases p) auto
  from assms show ?thesis
    unfolding p by simp
qed

lemma off_hue_not_in_band:
  assumes "case p of (h, s, v) \<Rightarrow> h < (35::uint8) \<or> 85 < h"
  shows "\<not> (case p of (h, s, v) \<Rightarrow> (35::uint8) \<le> h \<and> h \<le> 85 \<and> (50::uint8) \<le> s \<and> (50::uint8) \<le> v)"
proof -
  obtain h s v where p: "p = (h, s, v)"
    by (cases p) auto
  from assms have "h < 35 \<or> 85 < h"
    unfolding p by simp
  then have "\<not> (35 \<le> h \<and> h \<le> 85)"
    by (simp only: not_le [symmetric] de_Morgan_conj)
  then show ?thesis
    by (simp only: p split_conv, blast)
qed

lemma all_green_verdict:
  assumes "decode_image L url = Inr (Some img)" and "cvtColor L (Some img) = Inr hsv"
    and all: "\<And>i j. i < shape0 img \<Longrightarrow> j < shape1 img
               \<Longrightarrow> in_bounds (item hsv i j) lower_green upper_green"
  shows "fst (analyze_image L url)"
proof -
  have "green_pixel_count hsv = total_pixels hsv"
    by (rule green_pixel_count_all) (simp add: all cvtColor_shape(1,2) [OF assms(2)])
  then have "real (green_pixel_count hsv) / real (total_pixels img) = 1"
    using cvtColor_shape(3,4) [OF assms(2)] by simp
  then show ?thesis
    by (simp add: analyze_image_decoded [OF assms(1,2)])
qed

lemma no_green_verdict:
  assumes "decode_image L url = Inr (Some img)" and "cvtColor L (Some img) = Inr hsv"
    and none: "\<And>i j. i < shape0 img \<Longrightarrow> j < shape1 img
               \<Longrightarrow> \<not> in_bounds (item hsv i j) lower_green upper_green"
  shows "\<not> fst (analyze_image L url)"
proof -
  have "green_pixel_count hsv = 0"
    by (rule green_pixel_count_none) (simp add: none cvtColor_shape(1,2) [OF assms(2)])
  then show ?thesis
    by (simp add: analyze_image_decoded [OF assms(1,2)])
qed

lemma sample_convert:
  "COLOR_BGR2HSV sample_libs (item (uniform 2 2 (0, 255, 0)) i j) = (60, 255, 255)"
  "COLOR_BGR2HSV sample_libs (item (uniform 2 2 (255, 0, 0)) i j) = (120, 255, 255)"
  by (simp_all add: sample_libs_def sample_bgr2hsv_def uniform_def)

lemma length_filter_less_upt: "length (filter (\<lambda>j. j < k) [0..<n]) = min k n"
  by (induction n) auto

lemma striped_decode:
  "decode_image (striped_libs k n) green_url = Inr (Some (striped k n))"
  by (simp add: decode_image_def split_comma_def striped_libs_def sample_defs)

lemma striped_cvtColor:
  assumes "0 < n"
  shows "cvtColor (striped_libs k n) (Some (striped k n))
         = Inr \<lparr>shape0 = 1, shape1 = n,
                item = (\<lambda>i j. if j < k then (60, 255, 255) else (120, 255, 255))\<rparr>"
proof -
  have conv: "sample_bgr2hsv (if c then (0, 255, 0) else (255, 0, 0))
              = (if c then (60, 255, 255) else (120, 255, 255))" for c
    by (cases c) (simp_all add: sample_bgr2hsv_def)
  from assms show ?thesis
    by (simp add: cvtColor_def striped_libs_def striped_def sample_libs_def conv)
qed

lemma striped_count:
  "green_pixel_count \<lparr>shape0 = 1, shape1 = n,
                item = (\<lambda>i j. if j < k then (60, 255, 255) else (120, 255, 255))\<rparr> = min k n"
proof -
  have one: "[0..<1] = [0::nat]"
    by (simp add: upt_rec)
  have "green_pixel_count \<lparr>shape0 = 1, shape1 = n,
                item = (\<lambda>i j. if j < k then (60, 255, 255) else (120, 255, 255))\<rparr>
        = length (filter (\<lambda>j. j < k) [0..<n])"
    by (simp add: green_pixel_count_def sum_positive_def inRange_def indices_def one filter_map
        comp_def in_bounds_def lower_green_def upper_green_def if_distrib cong: if_cong)
  then show ?thesis
    by (simp only: length_filter_less_upt)
qed

lemma striped_total: "total_pixels (striped k n) = n"
  by (simp add: total_pixels_def striped_def)

subsection \<open>The classifier: claims\<close>

text \<open>
  C2. For every image that decodes (to an array that \<open>cvtColor\<close> accepts, so with at
  least one pixel), the verdict of \<open>analyze_image\<close> is true exactly when the number of
  pixels in the green mask, divided by the number of pixels, is above 1/1000, that is
  0.1 percent. Hence the verdict is monotone in that fraction: if it is true for one
  image it is true for every image whose fraction is at least as large.
\<close>

theorem analyze_image_threshold:
  assumes "decode_image L url = Inr (Some img)" and "cvtColor L (Some img) = Inr hsv"
    and "decode_image L url' = Inr (Some img')" and "cvtColor L (Some img') = Inr hsv'"
    and "real (green_pixel_count hsv) / real (total_pixels img)
         \<le> real (green_pixel_count hsv') / real (total_pixels img')"
  shows "(fst (analyze_image L url) \<longleftrightarrow> 1 / 1000 < real (green_pixel_count hsv) / real (total_pixels img))
       \<and> (fst (analyze_image L url) \<longrightarrow> fst (analyze_image L url'))"
proof -
  have a: "fst (analyze_image L url)
           \<longleftrightarrow> 1 / 1000 < real (green_pixel_count hsv) / real (total_pixels img)"
    by (simp only: analyze_image_decoded [OF assms(1,2)] fst_conv)
  have b: "fst (analyze_image L url')
           \<longleftrightarrow> 1 / 1000 < real (green_pixel_count hsv') / real (total_pixels img')"
    by (simp only: analyze_image_decoded [OF assms(3,4)] fst_conv)
  from a b assms(5) show ?thesis
    by linarith
qed

theorem analyze_image_threshold_witness:
  "\<not> fst (analyze_image sample_libs blue_url)
   \<and> \<not> fst (analyze_image (striped_libs 1 1000) green_url)
   \<and> fst (analyze_image (striped_libs 2 1000) green_url)
   \<and> fst (analyze_image sample_libs green_url)"
proof -
  have pos: "(0::nat) < 1000"
    by simp
  note one = analyze_image_threshold [OF striped_decode [of 1] striped_cvtColor [OF pos]
      striped_decode [of 1] striped_cvtColor [OF pos], THEN conjunct1]
  note two = analyze_image_threshold [OF striped_decode [of 2] striped_cvtColor [OF pos]
      striped_decode [of 2] striped_cvtColor [OF pos], THEN conjunct1]
  note blue = analyze_image_threshold [OF sample_decode(3) sample_cvtColor(3)
      sample_decode(3) sample_cvtColor(3), THEN conjunct1]
  note green = analyze_image_threshold [OF sample_decode(1) sample_cvtColor(1)
      sample_decode(1) sample_cvtColor(1), THEN conjunct1]
  have "\<not> fst (analyze_image sample_libs blue_url)"
    using blue by (simp add: sample_counts)
  moreover have "\<not> fst (analyze_image (striped_libs 1 1000) green_url)"
    using one by (simp only: striped_count striped_total; simp)
  moreover have "fst (analyze_image (striped_libs 2 1000) green_url)"
    using two by (simp only: striped_count striped_total; simp)
  moreover have "fst (analyze_image sample_libs green_url)"
    using green by (simp add: sample_counts)
  ultimately show ?thesis
    by (intro conjI)
qed

text \<open>
  C5. A payload that cannot be decoded yields the verdict false, raises nothing out of
  \<open>analyze_image\<close>, and the cause is printed: the four ways of failing are a data URL
  without a comma, a base64 text that \<open>b64decode\<close> rejects, bytes on which \<open>imdecode\<close>
  raises, and bytes that \<open>imdecode\<close> does not read as an image (it returns
  \<^verbatim>\<open>None\<close>, and \<open>cvtColor\<close> raises on it).
\<close>

theorem analyze_image_fail_open:
  "(CHR '','' \<notin> set url \<longrightarrow> analyze_image L url = (False, [ErrorAnalyzingImage ValueError]))
   \<and> (split_comma url = Inr (header, encoded) \<and> b64decode L encoded = Inl e
        \<longrightarrow> analyze_image L url = (False, [ErrorAnalyzingImage e]))
   \<and> (split_comma url = Inr (header, encoded) \<and> b64decode L encoded = Inr data
        \<and> imdecode L data = Inl e
        \<longrightarrow> analyze_image L url = (False, [ErrorAnalyzingImage e]))
   \<and> (split_comma url = Inr (header, encoded) \<and> b64decode L encoded = Inr data
        \<and> imdecode L data = Inr None
        \<longrightarrow> analyze_image L url = (False, [ErrorAnalyzingImage Cv2Error]))"
  by (simp add: analyze_image_def analyze_image_try_def decode_image_def split_comma_def cvtColor_def)

theorem analyze_image_fail_open_witness:
  "analyze_image sample_libs ''R1JFRU4='' = (False, [ErrorAnalyzingImage ValueError])
   \<and> analyze_image sample_libs ''data:image/png;base64,R1JFRU4'' = (False, [ErrorAnalyzingImage BinasciiError])
   \<and> analyze_image (sample_libs\<lparr>b64decode := (\<lambda>s. Inr [])\<rparr>) green_url = (False, [ErrorAnalyzingImage Cv2Error])
   \<and> analyze_image sample_libs junk_url = (False, [ErrorAnalyzingImage Cv2Error])"
  using analyze_image_fail_open [of "''R1JFRU4=''" sample_libs]
    analyze_image_fail_open [of "''data:image/png;base64,R1JFRU4''" sample_libs "''data:image/png;base64''"
      "''R1JFRU4''" BinasciiError]
    analyze_image_fail_open [of green_url "sample_libs\<lparr>b64decode := (\<lambda>s. Inr [])\<rparr>" "''data:image/png;base64''"
      "''R1JFRU4=''" Cv2Error "[]"]
    analyze_image_fail_open [of junk_url sample_libs "''data:image/png;base64''"
      "''SlVOSw==''" e "[74, 85, 78, 75]"]
  by (simp add: split_comma_def sample_defs)

text \<open>
  C8, as the code has it. The mask selects exactly the pixels whose hue lies between 35
  and 85 and whose saturation and value are each at least 50 (both bounds of
  \<open>inRange\<close> are included). So an image whose pixels all have a hue in the band at
  saturation and value 255 gets the verdict true, and an image whose pixels all have a
  hue outside the band gets the verdict false whatever their saturation and value.
\<close>

theorem green_mask_band:
  assumes "decode_image L url = Inr (Some img)" and "cvtColor L (Some img) = Inr hsv"
  shows "(0 < item (inRange hsv lower_green upper_green) i j
          \<longleftrightarrow> (case COLOR_BGR2HSV L (item img i j) of
                 (h, s, v) \<Rightarrow> 35 \<le> h \<and> h \<le> 85 \<and> 50 \<le> s \<and> 50 \<le> v))
       \<and> ((\<forall>i < shape0 img. \<forall>j < shape1 img.
              case COLOR_BGR2HSV L (item img i j) of
                (h, s, v) \<Rightarrow> 35 \<le> h \<and> h \<le> 85 \<and> s = 255 \<and> v = 255)
            \<longrightarrow> fst (analyze_image L url))
       \<and> ((\<forall>i < shape0 img. \<forall>j < shape1 img.
              case COLOR_BGR2HSV L (item img i j) of (h, s, v) \<Rightarrow> h < 35 \<or> 85 < h)
            \<longrightarrow> \<not> fst (analyze_image L url))"
proof (intro conjI impI)
  show "0 < item (inRange hsv lower_green upper_green) i j
          \<longleftrightarrow> (case COLOR_BGR2HSV L (item img i j) of
                 (h, s, v) \<Rightarrow> 35 \<le> h \<and> h \<le> 85 \<and> 50 \<le> s \<and> 50 \<le> v)"
    by (simp only: item_inRange hsv_in_band [OF assms(2)])
next
  assume all: "\<forall>i < shape0 img. \<forall>j < shape1 img.
              case COLOR_BGR2HSV L (item img i j) of
                (h, s, v) \<Rightarrow> 35 \<le> h \<and> h \<le> 85 \<and> s = 255 \<and> v = 255"
  show "fst (analyze_image L url)"
  proof (rule all_green_verdict [OF assms])
    fix i j
    assume "i < shape0 img" and "j < shape1 img"
    with all have "case COLOR_BGR2HSV L (item img i j) of
                     (h, s, v) \<Rightarrow> 35 \<le> h \<and> h \<le> 85 \<and> s = 255 \<and> v = 255"
      by (simp only:)
    then show "in_bounds (item hsv i j) lower_green upper_green"
      by (simp only: hsv_in_band [OF assms(2)] full_green_in_band)
  qed
next
  assume none: "\<forall>i < shape0 img. \<forall>j < shape1 img.
              case COLOR_BGR2HSV L (item img i j) of (h, s, v) \<Rightarrow> h < 35 \<or> 85 < h"
  show "\<not> fst (analyze_image L url)"
  proof (rule no_green_verdict [OF assms])
    fix i j
    assume "i < shape0 img" and "j < shape1 img"
    with none have "case COLOR_BGR2HSV L (item img i j) of (h, s, v) \<Rightarrow> h < 35 \<or> 85 < h"
      by (simp only:)
    then show "\<not> in_bounds (item hsv i j) lower_green upper_green"
      by (simp only: hsv_in_band [OF assms(2)] off_hue_not_in_band not_False_eq_True)
  qed
qed

theorem green_mask_band_witness:
  "0 < item (inRange (uniform 2 2 (60, 255, 255)) lower_green upper_green) 0 1
   \<and> fst (analyze_image sample_libs green_url)
   \<and> \<not> 0 < item (inRange (uniform 2 2 (120, 255, 255)) lower_green upper_green) 0 1
   \<and> \<not> fst (analyze_image sample_libs blue_url)"
proof -
  note g = green_mask_band [OF sample_decode(1) sample_cvtColor(1), of 0 1]
  note b = green_mask_band [OF sample_decode(3) sample_cvtColor(3), of 0 1]
  have "0 < item (inRange (uniform 2 2 (60, 255, 255)) lower_green upper_green) 0 1"
    using g [THEN conjunct1] by (simp only: sample_convert split_conv) simp
  moreover have "fst (analyze_image sample_libs green_url)"
    using g [THEN conjunct2, THEN conjunct1] by (simp only: sample_convert split_conv) simp
  moreover have "\<not> 0 < item (inRange (uniform 2 2 (120, 255, 255)) lower_green upper_green) 0 1"
    using b [THEN conjunct1] by (simp only: sample_convert split_conv) simp
  moreover have "\<not> fst (analyze_image sample_libs blue_url)"
    using b [THEN conjunct2, THEN conjunct2] by (simp only: sample_convert split_conv) simp
  ultimately show ?thesis
    by (intro conjI)
qed

text \<open>
  C8 as worded asks saturation and value to exceed 50. The pale green (205, 255, 205)
  has saturation exactly 50: \<open>strictly_green\<close> rejects it, the mask of the code
  selects it, and an image of that colour gets the verdict true.
\<close>

theorem green_band_strict_counterexample:
  "decode_image sample_libs pale_url = Inr (Some (uniform 2 2 (205, 255, 205)))
   \<and> cvtColor sample_libs (Some (uniform 2 2 (205, 255, 205))) = Inr (uniform 2 2 (60, 50, 255))
   \<and> 0 < item (inRange (uniform 2 2 (60, 50, 255)) lower_green upper_green) 0 0
   \<and> \<not> strictly_green (item (uniform 2 2 (60, 50, 255)) 0 0)
   \<and> analyze_image sample_libs pale_url = (True, [])"
proof (intro conjI)
  show "0 < item (inRange (uniform 2 2 (60, 50, 255)) lower_green upper_green) 0 0"
    by (simp add: item_inRange in_bounds_def lower_green_def upper_green_def uniform_def)
  show "\<not> strictly_green (item (uniform 2 2 (60, 50, 255)) 0 0)"
    by (simp add: strictly_green_def uniform_def)
  show "analyze_image sample_libs pale_url = (True, [])"
    by (simp add: analyze_image_decoded [OF sample_decode(2) sample_cvtColor(2)] sample_counts)
qed (rule sample_decode(2), rule sample_cvtColor(2))

text \<open>
  C10. For every string and every behaviour of the library functions, \<open>analyze_image\<close>
  returns a verdict and raises nothing: the verdict is true exactly when the image
  decodes, converts and has more than 0.1 percent of green pixels, and false in every
  other case. In particular an exception anywhere in the body, a failed decoding, no
  image, and an image without pixels each give the verdict false with the cause printed.
  (An image without pixels is refused by \<open>cvtColor\<close>; were it not,
  \<open>empty_image_no_verdict\<close> shows that the division by zero gives \<open>nan\<close> and the
  comparison is false.)
\<close>

theorem analyze_image_total:
  "(fst (analyze_image L url)
      \<longleftrightarrow> (\<exists>img hsv. decode_image L url = Inr (Some img) \<and> cvtColor L (Some img) = Inr hsv
             \<and> 1 / 1000 < real (green_pixel_count hsv) / real (total_pixels img)))
   \<and> (analyze_image_try L url = Inl e \<longrightarrow> analyze_image L url = (False, [ErrorAnalyzingImage e]))
   \<and> (decode_image L url = Inl e \<longrightarrow> analyze_image L url = (False, [ErrorAnalyzingImage e]))
   \<and> (decode_image L url = Inr None \<longrightarrow> analyze_image L url = (False, [ErrorAnalyzingImage Cv2Error]))
   \<and> (decode_image L url = Inr (Some img) \<and> total_pixels img = 0
        \<longrightarrow> analyze_image L url = (False, [ErrorAnalyzingImage Cv2Error]))"
proof (intro conjI impI)
  show "fst (analyze_image L url)
      \<longleftrightarrow> (\<exists>img hsv. decode_image L url = Inr (Some img) \<and> cvtColor L (Some img) = Inr hsv
             \<and> 1 / 1000 < real (green_pixel_count hsv) / real (total_pixels img))"
    by (auto simp: analyze_image_def analyze_image_try_cases cvtColor_Some_iff
        split: sum.splits option.splits)
next
  assume "analyze_image_try L url = Inl e"
  then show "analyze_image L url = (False, [ErrorAnalyzingImage e])"
    by (rule analyze_image_raised)
next
  assume "decode_image L url = Inl e"
  then show "analyze_image L url = (False, [ErrorAnalyzingImage e])"
    by (simp add: analyze_image_def analyze_image_try_cases)
next
  assume "decode_image L url = Inr None"
  then show "analyze_image L url = (False, [ErrorAnalyzingImage Cv2Error])"
    by (simp add: analyze_image_def analyze_image_try_cases)
next
  assume "decode_image L url = Inr (Some img) \<and> total_pixels img = 0"
  then show "analyze_image L url = (False, [ErrorAnalyzingImage Cv2Error])"
    by (auto simp: analyze_image_def analyze_image_try_cases total_pixels_def)
qed

theorem analyze_image_total_witness:
  "fst (analyze_image sample_libs green_url)
   \<and> analyze_image sample_libs ''data:image/png;base64,R1JFRU4'' = (False, [ErrorAnalyzingImage BinasciiError])
   \<and> analyze_image sample_libs junk_url = (False, [ErrorAnalyzingImage Cv2Error])
   \<and> analyze_image (sample_libs\<lparr>imdecode := (\<lambda>bs. Inr (Some (uniform 0 0 (0, 255, 0))))\<rparr>) green_url
       = (False, [ErrorAnalyzingImage Cv2Error])"
proof -
  let ?L0 = "sample_libs\<lparr>imdecode := (\<lambda>bs. Inr (Some (uniform 0 0 (0, 255, 0))))\<rparr>"
  have d: "decode_image sample_libs ''data:image/png;base64,R1JFRU4'' = Inl BinasciiError"
    by (simp add: decode_image_def split_comma_def sample_defs)
  have z: "decode_image ?L0 green_url = Inr (Some (uniform 0 0 (0, 255, 0)))
           \<and> total_pixels (uniform 0 0 (0, 255, 0)) = 0"
    by (simp add: decode_image_def split_comma_def sample_defs total_pixels_def)
  have g: "\<exists>img hsv. decode_image sample_libs green_url = Inr (Some img)
            \<and> cvtColor sample_libs (Some img) = Inr hsv
            \<and> 1 / 1000 < real (green_pixel_count hsv) / real (total_pixels img)"
    by (intro exI conjI, rule sample_decode(1), rule sample_cvtColor(1)) (simp add: sample_counts)
  have "fst (analyze_image sample_libs green_url)"
    using analyze_image_total [of sample_libs green_url, THEN conjunct1, THEN iffD2, OF g] .
  moreover have "analyze_image sample_libs ''data:image/png;base64,R1JFRU4''
                 = (False, [ErrorAnalyzingImage BinasciiError])"
    using analyze_image_total [THEN conjunct2, THEN conjunct2, THEN conjunct1, THEN mp, OF d] .
  moreover have "analyze_image sample_libs junk_url = (False, [ErrorAnalyzingImage Cv2Error])"
    using analyze_image_total [THEN conjunct2, THEN conjunct2, THEN conjunct2, THEN conjunct1,
        THEN mp, OF sample_decode(4)] .
  moreover have "analyze_image ?L0 green_url = (False, [ErrorAnalyzingImage Cv2Error])"
    using analyze_image_total [THEN conjunct2, THEN conjunct2, THEN conjunct2, THEN conjunct2,
        THEN mp, OF z] .
  ultimately show ?thesis
    by (intro conjI)
qed

subsection \<open>The capture channel\<close>

lemma last_start_Max: "last_start now ms = Max (insert now (fst ` set ms))"
proof (induction ms arbitrary: now)
  case Nil
  show ?case by simp
next
  case (Cons m ms)
  obtain t data where m: "m = (t, data)"
    by (cases m) auto
  have "Max (insert (max now t) (fst ` set ms)) = Max (insert now (insert t (fst ` set ms)))"
  proof (cases "set ms = {}")
    case True
    then show ?thesis
      by (simp add: max.commute)
  next
    case False
    then have "fst ` set ms \<noteq> {}" and "finite (fst ` set ms)"
      by simp_all
    then show ?thesis
      by (simp add: max.assoc)
  qed
  then show ?case
    by (simp add: m Cons.IH)
qed






subsection \<open>One turn of the loop\<close>

lemma emit_simps:
  "trace (emit evs s) = trace s @ evs"
  "status (emit evs s) = status s"
  "pending (emit evs s) = pending s"
  "clock (emit evs s) = clock s + sum_list (map duration evs)"
  by (simp_all add: emit_def)

lemma cycle_timeout:
  assumes "capture_image_from_server (clock s) (pending s) = (None, evs, t, rest)"
  shows "trace (cycle L s) = trace s @ [Post Capture, Print TimeoutWaiting, Print FailedToGetImage, Sleep 1]"
    and "status (cycle L s) = status s"
    and "pending (cycle L s) = rest"
    and "clock (cycle L s) = t + 1"
proof -
  from assms have e: "evs = [Post Capture, Print TimeoutWaiting]"
    by (auto simp: capture_image_from_server_def split: prod.splits option.splits)
  have c: "cycle L s = emit [Print FailedToGetImage, Sleep 1] (emit evs (s\<lparr>clock := t, pending := rest\<rparr>))"
    by (simp add: cycle_def assms)
  show "trace (cycle L s) = trace s @ [Post Capture, Print TimeoutWaiting, Print FailedToGetImage, Sleep 1]"
    and "status (cycle L s) = status s"
    and "pending (cycle L s) = rest"
    and "clock (cycle L s) = t + 1"
    by (simp_all add: c e emit_simps)
qed

lemma cycle_response:
  assumes "capture_image_from_server (clock s) (pending s) = (Some data, evs, t, rest)"
    and "msg_image data = Some image_data" and "msg_position data = Some robot_pos"
    and "distance_to_goal robot_pos = Inr d"
  shows "cycle L s =
     (let s1 = emit [Post Capture] (s\<lparr>clock := t, pending := rest\<rparr>) in
      if float_less d GOAL_THRESHOLD
      then (emit [Print GoalReachedStopping, Post Stop] s1)\<lparr>status := GoalReached\<rparr>
      else if fst (analyze_image L image_data)
      then emit (map Print (snd (analyze_image L image_data)) @
             [Print ObstacleDetected, Post (MoveRel 20 5), Sleep 2, Sleep 1]) s1
      else emit (map Print (snd (analyze_image L image_data)) @
             [Print PathClear, Post (MoveRel 0 10), Sleep 1, Post (Move GOAL_POSITION), Sleep 1]) s1)"
proof -
  from assms(1) have e: "evs = [Post Capture]"
    by (auto simp: capture_image_from_server_def split: prod.splits option.splits)
  show ?thesis
    by (simp add: cycle_def assms e Let_def split: prod.splits)
qed

lemma cycle_overflow:
  assumes "capture_image_from_server (clock s) (pending s) = (Some data, evs, t, rest)"
    and "msg_image data = Some image_data" and "msg_position data = Some robot_pos"
    and "distance_to_goal robot_pos = Inl e"
  shows "cycle L s = (emit [Post Capture] (s\<lparr>clock := t, pending := rest\<rparr>))\<lparr>status := Crashed e\<rparr>"
proof -
  from assms(1) have e: "evs = [Post Capture]"
    by (auto simp: capture_image_from_server_def split: prod.splits option.splits)
  show ?thesis
    by (simp add: cycle_def assms e Let_def)
qed

lemma main_loop_stopped:
  assumes "status s \<noteq> Running"
  shows "main_loop L n s = s"
  using assms by (cases n) simp_all

lemma main_loop_step:
  assumes "status s = Running"
  shows "main_loop L (Suc n) s = main_loop L n (cycle L s)"
  using assms by simp

lemma obstacle_prints_nothing:
  assumes "fst (analyze_image L url)"
  shows "snd (analyze_image L url) = []"
  using assms by (simp add: analyze_image_def split: sum.splits)

lemma recv_loop_no_response:
  assumes "\<forall>m \<in> set ws. msg_type (snd m) \<noteq> Some ''capture_image_response''"
  shows "\<exists>t rest. recv_loop now ws = (None, t, rest) \<and> set rest \<subseteq> set ws"
  using assms
proof (induction ws arbitrary: now)
  case Nil
  show ?case by simp
next
  case (Cons m ws)
  obtain u data where m: "m = (u, data)"
    by (cases m) auto
  from Cons.prems have other: "msg_type data \<noteq> Some ''capture_image_response''"
    and tail: "\<forall>m \<in> set ws. msg_type (snd m) \<noteq> Some ''capture_image_response''"
    by (simp_all add: m)
  from Cons.IH [OF tail, of "max now u"] obtain t rest
    where "recv_loop (max now u) ws = (None, t, rest)" and "set rest \<subseteq> set ws"
    by blast
  with other show ?case
    by (cases "u < now + 5") (auto simp: m)
qed

lemma capture_no_response:
  assumes "\<forall>m \<in> set ws. msg_type (snd m) \<noteq> Some ''capture_image_response''"
  shows "\<exists>t rest. capture_image_from_server now ws
                    = (None, [Post Capture, Print TimeoutWaiting], t, rest)
                  \<and> set rest \<subseteq> set ws"
proof -
  from recv_loop_no_response [OF assms, of now] obtain t rest
    where "recv_loop now ws = (None, t, rest)" and "set rest \<subseteq> set ws"
    by blast
  then show ?thesis
    by (simp add: capture_image_from_server_def)
qed

lemma main_loop_timeouts:
  assumes "status s = Running"
    and "\<forall>m \<in> set (pending s). msg_type (snd m) \<noteq> Some ''capture_image_response''"
  shows "status (main_loop L n s) = Running
       \<and> trace (main_loop L n s)
           = trace s @ concat (replicate n
               [Post Capture, Print TimeoutWaiting, Print FailedToGetImage, Sleep 1])"
  using assms
proof (induction n arbitrary: s)
  case 0
  then show ?case by simp
next
  case (Suc n)
  from capture_no_response [OF Suc.prems(2), of "clock s"] obtain t rest
    where c: "capture_image_from_server (clock s) (pending s)
                = (None, [Post Capture, Print TimeoutWaiting], t, rest)"
      and sub: "set rest \<subseteq> set (pending s)"
    by blast
  note step = cycle_timeout [OF c, of L]
  have "status (cycle L s) = Running"
    using step(2) Suc.prems(1) by simp
  moreover have "\<forall>m \<in> set (pending (cycle L s)). msg_type (snd m) \<noteq> Some ''capture_image_response''"
    using step(3) sub Suc.prems(2) by auto
  ultimately have "status (main_loop L n (cycle L s)) = Running
       \<and> trace (main_loop L n (cycle L s))
           = trace (cycle L s) @ concat (replicate n
               [Post Capture, Print TimeoutWaiting, Print FailedToGetImage, Sleep 1])"
    by (rule Suc.IH)
  then show ?case
    using Suc.prems(1) step(1) by simp
qed

lemma cycle_trace:
  "\<exists>es. trace (cycle L s) = trace s @ Post Capture # es \<and> (\<forall>p. Post (Goal p) \<notin> set es)"
proof -
  obtain resp evs t rest
    where c: "capture_image_from_server (clock s) (pending s) = (resp, evs, t, rest)"
    by (cases "capture_image_from_server (clock s) (pending s)") auto
  show ?thesis
  proof (cases resp)
    case None
    from cycle_timeout(1) [OF c [unfolded None], of L] show ?thesis
      by simp
  next
    case (Some data)
    from c have e: "evs = [Post Capture]"
      by (auto simp: Some capture_image_from_server_def split: prod.splits option.splits)
    show ?thesis
    proof (cases "msg_image data")
      case None
      then show ?thesis
        by (simp add: cycle_def c Some e emit_simps)
    next
      case image: (Some image_data)
      show ?thesis
      proof (cases "msg_position data")
        case None
        then show ?thesis
          by (simp add: cycle_def c Some e image emit_simps)
      next
        case position: (Some robot_pos)
        show ?thesis
        proof (cases "distance_to_goal robot_pos")
          case (Inl e)
          show ?thesis
            by (simp add: cycle_overflow [OF c [unfolded Some] image position Inl] emit_simps)
        next
          case (Inr d)
          show ?thesis
            by (simp add: cycle_response [OF c [unfolded Some] image position Inr] Let_def
                emit_simps image_iff)
        qed
      qed
    qed
  qed
qed

lemma main_loop_trace:
  "\<exists>es. trace (main_loop L n s) = trace s @ es \<and> (\<forall>p. Post (Goal p) \<notin> set es)
        \<and> (0 < n \<and> status s = Running \<longrightarrow> (\<exists>es'. es = Post Capture # es'))"
proof (induction n arbitrary: s)
  case 0
  show ?case by simp
next
  case (Suc n)
  show ?case
  proof (cases "status s = Running")
    case False
    then show ?thesis by simp
  next
    case True
    from cycle_trace [of L s] obtain es1
      where a: "trace (cycle L s) = trace s @ Post Capture # es1"
        and a': "\<forall>p. Post (Goal p) \<notin> set es1"
      by blast
    from Suc.IH [of "cycle L s"] obtain es2
      where b: "trace (main_loop L n (cycle L s)) = trace (cycle L s) @ es2"
        and b': "\<forall>p. Post (Goal p) \<notin> set es2"
      by blast
    have "trace (main_loop L (Suc n) s) = trace s @ Post Capture # (es1 @ es2)"
      using True a b by simp
    moreover have "\<forall>p. Post (Goal p) \<notin> set (Post Capture # (es1 @ es2))"
      using a' b' by simp
    ultimately show ?thesis
      by blast
  qed
qed

lemma sample_near_goal:
  "capture_image_from_server (clock (start [(1, frame_at junk_url (Position (- 33) (- 34)))]))
     (pending (start [(1, frame_at junk_url (Position (- 33) (- 34)))]))
     = (Some (frame_at junk_url (Position (- 33) (- 34))), [Post Capture], 1, [])"
  by (simp add: capture_image_from_server_def start_def frame_at_def)

lemma sample_far:
  "capture_image_from_server (clock (start [(1, frame_at url (Position 0 0))]))
     (pending (start [(1, frame_at url (Position 0 0))]))
     = (Some (frame_at url (Position 0 0)), [Post Capture], 1, [])"
  by (simp add: capture_image_from_server_def start_def frame_at_def)

lemma sample_verdicts:
  "analyze_image sample_libs green_url = (True, [])"
  "analyze_image sample_libs blue_url = (False, [])"
  by (simp_all add: analyze_image_decoded [OF sample_decode(1) sample_cvtColor(1)]
      analyze_image_decoded [OF sample_decode(3) sample_cvtColor(3)] sample_counts)

subsection \<open>The loop: claims\<close>

text \<open>
  C1. In a turn of the running loop in which the capture succeeds and the reported
  position is less than 5 from the goal, the turn does exactly this: the capture
  request, the line "Goal reached", one \<open>Stop\<close>. The loop then ends: however many
  further turns are allowed, the run is that of this turn, so no move follows. The frame
  is not classified: nothing is printed by the classifier, and the turn is the same
  for every behaviour of the libraries that the classifier calls.
\<close>

theorem goal_reached_stops:
  assumes "status s = Running"
    and "capture_image_from_server (clock s) (pending s) = (Some data, evs, t, rest)"
    and "msg_image data = Some image_data" and "msg_position data = Some robot_pos"
    and "distance_to_goal robot_pos = Inr d" and "float_less d GOAL_THRESHOLD"
  shows "trace (cycle L s) = trace s @ [Post Capture, Print GoalReachedStopping, Post Stop]
       \<and> status (cycle L s) = GoalReached
       \<and> main_loop L (Suc n) s = cycle L s
       \<and> cycle L s = cycle L' s"
proof -
  have c: "cycle K s = (emit [Print GoalReachedStopping, Post Stop]
                          (emit [Post Capture] (s\<lparr>clock := t, pending := rest\<rparr>)))
                       \<lparr>status := GoalReached\<rparr>" for K
    by (simp add: cycle_response [OF assms(2,3,4,5)] assms(6))
  have t: "trace (cycle L s) = trace s @ [Post Capture, Print GoalReachedStopping, Post Stop]"
    by (simp add: c emit_simps)
  have g: "status (cycle L s) = GoalReached"
    by (simp add: c)
  have "main_loop L (Suc n) s = main_loop L n (cycle L s)"
    using assms(1) by simp
  also have "\<dots> = cycle L s"
    by (rule main_loop_stopped) (simp add: g)
  finally have m: "main_loop L (Suc n) s = cycle L s" .
  have "cycle L s = cycle L' s"
    by (simp only: c)
  with t g m show ?thesis
    by (intro conjI)
qed

theorem goal_reached_stops_witness:
  "trace (cycle sample_libs (start [(1, frame_at junk_url (Position (- 33) (- 34)))]))
     = [Post Capture, Print GoalReachedStopping, Post Stop]
   \<and> status (cycle sample_libs (start [(1, frame_at junk_url (Position (- 33) (- 34)))])) = GoalReached
   \<and> main_loop sample_libs (Suc 3) (start [(1, frame_at junk_url (Position (- 33) (- 34)))])
     = cycle sample_libs (start [(1, frame_at junk_url (Position (- 33) (- 34)))])"
proof -
  have r: "status (start [(1, frame_at junk_url (Position (- 33) (- 34)))]) = Running"
    and i: "msg_image (frame_at junk_url (Position (- 33) (- 34))) = Some junk_url"
    and p: "msg_position (frame_at junk_url (Position (- 33) (- 34))) = Some (Position (- 33) (- 34))"
    and e: "trace (start [(1, frame_at junk_url (Position (- 33) (- 34)))]) = []"
    by (simp_all add: start_def frame_at_def)
  from goal_reached_stops [OF r sample_near_goal i p sample_distances(1) sample_distances(4),
      of sample_libs 3 sample_libs]
  show ?thesis
    by (simp only: e append_Nil)
qed

text \<open>
  C3. In a turn of the running loop in which the capture succeeds and the distance is
  not below the threshold: on the verdict true the turn posts exactly one relative move
  with turn 20 and distance 5, pauses, and posts no move towards the goal; on the
  verdict false it posts the relative move with turn 0 and distance 10, pauses, and
  then posts the move towards the goal. The loop keeps running in both cases.
\<close>

theorem act_on_verdict:
  assumes "status s = Running"
    and "capture_image_from_server (clock s) (pending s) = (Some data, evs, t, rest)"
    and "msg_image data = Some image_data" and "msg_position data = Some robot_pos"
    and "distance_to_goal robot_pos = Inr d" and "\<not> float_less d GOAL_THRESHOLD"
  shows "(fst (analyze_image L image_data) \<longrightarrow>
            trace (cycle L s)
              = trace s @ [Post Capture, Print ObstacleDetected, Post (MoveRel 20 5), Sleep 2, Sleep 1])
       \<and> (\<not> fst (analyze_image L image_data) \<longrightarrow>
            trace (cycle L s)
              = trace s @ [Post Capture] @ map Print (snd (analyze_image L image_data))
                  @ [Print PathClear, Post (MoveRel 0 10), Sleep 1, Post (Move GOAL_POSITION), Sleep 1])
       \<and> status (cycle L s) = Running"
proof -
  note far = assms(6)
  note c = cycle_response [OF assms(2,3,4,5), of L]
  show ?thesis
  proof (cases "fst (analyze_image L image_data)")
    case True
    then show ?thesis
      using assms(1) by (simp add: c far Let_def emit_simps obstacle_prints_nothing)
  next
    case False
    then show ?thesis
      using assms(1) by (simp add: c far Let_def emit_simps)
  qed
qed

theorem act_on_verdict_witness:
  "trace (cycle sample_libs (start [(1, frame_at green_url (Position 0 0))]))
     = [Post Capture, Print ObstacleDetected, Post (MoveRel 20 5), Sleep 2, Sleep 1]
   \<and> trace (cycle sample_libs (start [(1, frame_at blue_url (Position 0 0))]))
     = [Post Capture, Print PathClear, Post (MoveRel 0 10), Sleep 1, Post (Move GOAL_POSITION), Sleep 1]
   \<and> status (cycle sample_libs (start [(1, frame_at blue_url (Position 0 0))])) = Running"
proof -
  have r: "status (start ws) = Running" and e: "trace (start ws) = []" for ws
    by (simp_all add: start_def)
  have i: "msg_image (frame_at url (Position 0 0)) = Some url"
    and p: "msg_position (frame_at url (Position 0 0)) = Some (Position 0 0)" for url
    by (simp_all add: frame_at_def)
  from act_on_verdict [OF r sample_far [of green_url] i p sample_distances(2) sample_distances(5),
        where L = sample_libs]
    act_on_verdict [OF r sample_far [of blue_url] i p sample_distances(2) sample_distances(5),
        where L = sample_libs]
  show ?thesis
    by (simp add: sample_verdicts e)
qed

text \<open>
  C6. A turn in which the capture times out prints its two lines, sleeps 1 unit and
  posts nothing but the capture request: no move, no stop, and the status is unchanged.
  And as long as no capture response is among the messages to come, the loop is still
  running after any number \<open>n\<close> of turns, having done exactly \<open>n\<close> times the same four
  things, with the same pause of 1 unit each time.
\<close>

theorem capture_timeout_retries:
  "(capture_image_from_server (clock s) (pending s) = (None, evs, t, rest) \<longrightarrow>
      trace (cycle L s)
        = trace s @ [Post Capture, Print TimeoutWaiting, Print FailedToGetImage, Sleep 1]
      \<and> status (cycle L s) = status s \<and> clock (cycle L s) = t + 1)
   \<and> (status s = Running
       \<and> (\<forall>m \<in> set (pending s). msg_type (snd m) \<noteq> Some ''capture_image_response'') \<longrightarrow>
      status (main_loop L n s) = Running
      \<and> trace (main_loop L n s)
          = trace s @ concat (replicate n
              [Post Capture, Print TimeoutWaiting, Print FailedToGetImage, Sleep 1]))"
proof (intro conjI impI)
  assume c: "capture_image_from_server (clock s) (pending s) = (None, evs, t, rest)"
  show "trace (cycle L s)
        = trace s @ [Post Capture, Print TimeoutWaiting, Print FailedToGetImage, Sleep 1]"
    by (rule cycle_timeout(1) [OF c])
  show "status (cycle L s) = status s"
    by (rule cycle_timeout(2) [OF c])
  show "clock (cycle L s) = t + 1"
    by (rule cycle_timeout(4) [OF c])
next
  assume a: "status s = Running
       \<and> (\<forall>m \<in> set (pending s). msg_type (snd m) \<noteq> Some ''capture_image_response'')"
  then have r: "status s = Running"
    and o: "\<forall>m \<in> set (pending s). msg_type (snd m) \<noteq> Some ''capture_image_response''"
    by simp_all
  from main_loop_timeouts [OF r o, of L n]
  show "status (main_loop L n s) = Running"
    and "trace (main_loop L n s)
          = trace s @ concat (replicate n
              [Post Capture, Print TimeoutWaiting, Print FailedToGetImage, Sleep 1])"
    by simp_all
qed

theorem capture_timeout_retries_witness:
  "status (main_loop sample_libs 2 (start [(2, other_message)])) = Running
   \<and> trace (main_loop sample_libs 2 (start [(2, other_message)]))
       = [Post Capture, Print TimeoutWaiting, Print FailedToGetImage, Sleep 1,
          Post Capture, Print TimeoutWaiting, Print FailedToGetImage, Sleep 1]
   \<and> clock (cycle sample_libs (start [(2, other_message)])) = 8"
proof -
  have h: "status (start [(2, other_message)]) = Running
       \<and> (\<forall>m \<in> set (pending (start [(2, other_message)])).
             msg_type (snd m) \<noteq> Some ''capture_image_response'')"
    by (simp add: start_def other_message_def)
  have c: "capture_image_from_server (clock (start [(2, other_message)]))
             (pending (start [(2, other_message)]))
           = (None, [Post Capture, Print TimeoutWaiting], 7, [])"
    by (simp add: capture_image_from_server_def start_def other_message_def)
  have two: "replicate 2 x = [x, x]" for x :: "event list"
    by (simp add: numeral_2_eq_2)
  from capture_timeout_retries [THEN conjunct2, THEN mp, OF h, of sample_libs 2]
    capture_timeout_retries [THEN conjunct1, THEN mp, OF c, of sample_libs]
  show ?thesis
    by (simp add: two start_def)
qed

text \<open>
  C9. Every run of \<open>main\<close>, whatever arrives on the socket and however long the loop
  runs, begins with two printed lines and then the post of the goal; no goal is posted
  again later; and the first thing the loop does, if it turns at all, is the first
  capture request. So the goal is posted exactly once and before any other request.
\<close>

theorem set_goal_first:
  "\<exists>es. trace (main L n ws)
          = [Print Started, Print (GoalSetTo GOAL_POSITION), Post (Goal GOAL_POSITION),
             Print GoalSent] @ es
        \<and> (\<forall>p. Post (Goal p) \<notin> set es)
        \<and> (0 < n \<longrightarrow> (\<exists>es'. es = Post Capture # es'))"
proof -
  let ?s = "\<lparr>clock = 0, pending = ws,
        trace = [Print Started, Print (GoalSetTo GOAL_POSITION), Post (Goal GOAL_POSITION),
                 Print GoalSent],
        status = Running\<rparr>"
  from main_loop_trace [of L n ?s] show ?thesis
    by (simp add: main_def)
qed

theorem set_goal_first_witness:
  "trace (main sample_libs 2 [(1, frame_at green_url (Position 0 0)),
                              (4, frame_at junk_url (Position (- 33) (- 34)))])
     = [Print Started, Print (GoalSetTo GOAL_POSITION), Post (Goal GOAL_POSITION), Print GoalSent,
        Post Capture, Print ObstacleDetected, Post (MoveRel 20 5), Sleep 2, Sleep 1,
        Post Capture, Print GoalReachedStopping, Post Stop]"
proof -
  let ?ws = "[(1, frame_at green_url (Position 0 0)), (4, frame_at junk_url (Position (- 33) (- 34)))]"
  from set_goal_first [of sample_libs 2 ?ws] obtain es
    where t: "trace (main sample_libs 2 ?ws)
          = [Print Started, Print (GoalSetTo GOAL_POSITION), Post (Goal GOAL_POSITION),
             Print GoalSent] @ es"
    by blast
  have far: "\<not> sqrt 2450 < GOAL_THRESHOLD"
    using sample_distances(5) by simp
  have near: "sqrt 5 < GOAL_THRESHOLD"
    using sample_distances(4) by simp
  have "trace (main sample_libs 2 ?ws)
     = [Print Started, Print (GoalSetTo GOAL_POSITION), Post (Goal GOAL_POSITION), Print GoalSent,
        Post Capture, Print ObstacleDetected, Post (MoveRel 20 5), Sleep 2, Sleep 1,
        Post Capture, Print GoalReachedStopping, Post Stop]"
    by (simp add: main_def numeral_2_eq_2 cycle_def capture_image_from_server_def frame_at_def
        emit_def sample_distances(1,2) far near sample_verdicts)
  with t show ?thesis
    by simp
qed

end
